theory Spec2Isabelle
  imports Main
begin

section \<open>Strings of the program\<close>

text \<open>
  A JavaScript string is modelled as a \<^typ>\<open>string\<close>: a list of 8-bit characters, one per
  code unit. Code units above \<open>0xFF\<close> are outside the model; the data URLs, file names and
  prompts handled here are compared and cut at ASCII characters only.
\<close>

text \<open>\<^verbatim>\<open>String.prototype.split(sep)\<close> for a one-character separator: the pieces between the
  separators, in order; a string without the separator is its own single piece.\<close>

function splitOn :: "char \<Rightarrow> string \<Rightarrow> string list" where
  "splitOn sep s =
     (case dropWhile (\<lambda>c. c \<noteq> sep) s of
        [] \<Rightarrow> [s]
      | _ # rest \<Rightarrow> takeWhile (\<lambda>c. c \<noteq> sep) s # splitOn sep rest)"
  by pat_completeness auto
termination
proof (relation "measure (\<lambda>(sep, s). length s)")
  show "wf (measure (\<lambda>(sep, s). length s))" by simp
next
  fix sep :: char and s :: string and x rest
  assume "dropWhile (\<lambda>c. c \<noteq> sep) s = x # rest"
  then have "length (x # rest) \<le> length s"
    using length_dropWhile_le [of "\<lambda>c. c \<noteq> sep" s] by simp
  then show "((sep, rest), (sep, s)) \<in> measure (\<lambda>(sep, s). length s)" by simp
qed

declare splitOn.simps [simp del]

text \<open>\<^verbatim>\<open>Array.prototype.join(sep)\<close>.\<close>

fun joinWith :: "string \<Rightarrow> string list \<Rightarrow> string" where
  "joinWith sep [] = []"
| "joinWith sep [p] = p"
| "joinWith sep (p # q # ps) = p @ sep @ joinWith sep (q # ps)"

text \<open>The line terminators that the regular-expression dot does not match (LF and CR; the
  two others, U+2028 and U+2029, are above \<open>0xFF\<close>).\<close>

definition isLineTerminator :: "char \<Rightarrow> bool" where
  "isLineTerminator c = (c = CHR 0x0A \<or> c = CHR 0x0D)"

text \<open>The white space that \<^verbatim>\<open>String.prototype.trim\<close> removes, as far as it lies below
  \<open>0x100\<close>: TAB, LF, VT, FF, CR, space and the no-break space.\<close>

definition isWhiteSpace :: "char \<Rightarrow> bool" where
  "isWhiteSpace c =
     (c = CHR 0x09 \<or> c = CHR 0x0A \<or> c = CHR 0x0B \<or> c = CHR 0x0C \<or> c = CHR 0x0D \<or>
      c = CHR 0x20 \<or> c = CHR 0xA0)"

definition trim :: "string \<Rightarrow> string" where
  "trim s = rev (dropWhile isWhiteSpace (rev (dropWhile isWhiteSpace s)))"

text \<open>An integer-valued number printed by a template literal: decimal digits, with a
  minus sign below zero. Numbers are modelled as \<^typ>\<open>int\<close>; the program's are doubles,
  exact on the time stamps and indices it handles.\<close>

definition digitChar :: "nat \<Rightarrow> char" where
  "digitChar d = ''0123456789'' ! d"

function natToString :: "nat \<Rightarrow> string" where
  "natToString n = (if n < 10 then [digitChar n] else natToString (n div 10) @ [digitChar (n mod 10)])"
  by pat_completeness auto
termination
  by (relation "measure id") auto

declare natToString.simps [simp del]

definition numberToString :: "int \<Rightarrow> string" where
  "numberToString n = (if n < 0 then CHR ''-'' # natToString (nat (- n)) else natToString (nat n))"

text \<open>\<^verbatim>\<open>Array.prototype.findIndex\<close>: the index of the first element that satisfies the
  predicate, \<open>-1\<close> when there is none.\<close>

fun findIndex :: "('a \<Rightarrow> bool) \<Rightarrow> 'a list \<Rightarrow> int" where
  "findIndex P [] = - 1"
| "findIndex P (x # xs) =
     (if P x then 0 else (let r = findIndex P xs in if r < 0 then - 1 else r + 1))"

section \<open>Image codec helper (components/ImageUploader.tsx)\<close>

text \<open>A thrown value: an \<^verbatim>\<open>Error\<close> object with its message, or anything else.\<close>

datatype thrown = Error string | NonError

text \<open>\<^verbatim>\<open>ImageFile\<close>. The field \<open>base64\<close> is \<open>None\<close> where the program stores
  \<^verbatim>\<open>undefined\<close> in it.\<close>

record ImageFile =
  base64 :: "string option"
  mimeType :: "string"

text \<open>The lazy group of \<^verbatim>\<open>/:(.*?);/\<close> once the colon is matched: the characters up to the
  next semicolon, none of them a line terminator.\<close>

fun lazyUntilSemi :: "string \<Rightarrow> string option" where
  "lazyUntilSemi [] = None"
| "lazyUntilSemi (c # cs) =
     (if c = CHR '';'' then Some []
      else if isLineTerminator c then None
      else map_option ((#) c) (lazyUntilSemi cs))"

text \<open>\<^verbatim>\<open>s.match(/:(.*?);/)\<close>: the group of the leftmost match, \<open>None\<close> for \<^verbatim>\<open>null\<close>.\<close>

fun matchMime :: "string \<Rightarrow> string option" where
  "matchMime [] = None"
| "matchMime (c # cs) =
     (if c = CHR '':'' then
        (case lazyUntilSemi cs of Some m \<Rightarrow> Some m | None \<Rightarrow> matchMime cs)
      else matchMime cs)"

text \<open>\<^verbatim>\<open>parts[1]\<close>: the second piece, \<^verbatim>\<open>undefined\<close> when there is none. (\<^verbatim>\<open>parts[0]\<close>
  always exists: \<open>splitOn\<close> never returns the empty list, see \<open>splitOn_nonempty\<close>.)\<close>

fun secondPart :: "string list \<Rightarrow> string option" where
  "secondPart (p # q # ps) = Some q"
| "secondPart ps = None"

definition parseDataUrl :: "string \<Rightarrow> thrown + ImageFile" where
  "parseDataUrl dataUrl =
     (let parts = splitOn CHR '','' dataUrl in
      case matchMime (hd parts) of
        None \<Rightarrow> Inl (Error ''Invalid data URL'')
      | Some mime \<Rightarrow> Inr \<lparr>base64 = secondPart parts, mimeType = mime\<rparr>)"

text \<open>The template \<^verbatim>\<open>`data:${image.mimeType};base64,${image.base64}`\<close> that renders an image
  (ImageUploader, HistoryPanel, handleViewHistoryItem); \<^verbatim>\<open>undefined\<close> prints as its name.\<close>

definition encodeDataUrl :: "ImageFile \<Rightarrow> string" where
  "encodeDataUrl img =
     ''data:'' @ mimeType img @ '';base64,'' @
     (case base64 img of None \<Rightarrow> ''undefined'' | Some b \<Rightarrow> b)"

section \<open>The application state (App component)\<close>

text \<open>\<^verbatim>\<open>Character\<close>, the element of every named list: \<^verbatim>\<open>id\<close>, \<^verbatim>\<open>name\<close> and
  \<^verbatim>\<open>image\<close> (\<open>None\<close> for \<^verbatim>\<open>null\<close>).\<close>

record Character =
  char_id :: int
  name :: string
  char_image :: "ImageFile option"

text \<open>\<^verbatim>\<open>HistoryItem\<close>: \<^verbatim>\<open>id\<close>, \<^verbatim>\<open>image\<close>, \<^verbatim>\<open>prompt\<close>, \<^verbatim>\<open>createdAt\<close>.\<close>

record HistoryItem =
  item_id :: string
  item_image :: ImageFile
  prompt :: string
  createdAt :: string

datatype tab = GenerateTab | EditTab

text \<open>The state variables of the component that the handlers below read or write.\<close>

record AppState =
  activeTab :: tab
  history :: "HistoryItem list"
  characters :: "Character list"
  additionalElements :: "Character list"
  sceneDescription :: string
  sceneLocationImage :: "ImageFile option"
  styleImage :: "ImageFile option"
  aspectRatio :: string
  lightingStyle :: string
  cameraPerspective :: string
  numberOfImages :: nat
  generatedPrompt :: string
  generatedImages :: "string list"
  genLoading :: bool
  genError :: "string option"
  editAddChars :: "Character list"
  editAddObjs :: "Character list"

text \<open>The values the state variables are created with (the first entries of the option
  tables for the three select inputs).\<close>

definition initialState :: AppState where
  "initialState =
     \<lparr>activeTab = GenerateTab, history = [],
      characters = [\<lparr>char_id = 1, name = ''Character 1'', char_image = None\<rparr>],
      additionalElements = [], sceneDescription = [], sceneLocationImage = None,
      styleImage = None, aspectRatio = ''16:9'', lightingStyle = ''natural morning light'',
      cameraPerspective = ''close-up shot'', numberOfImages = 1, generatedPrompt = [],
      generatedImages = [], genLoading = False, genError = None,
      editAddChars = [], editAddObjs = []\<rparr>"

definition MAX_HISTORY_ITEMS :: nat where
  "MAX_HISTORY_ITEMS = 20"

definition getNameFromFilename :: "string \<Rightarrow> string" where
  "getNameFromFilename fileName =
     (if fileName = [] then []
      else
        let nameParts = splitOn CHR ''.'' fileName;
            nameParts = (if length nameParts > 1 then butlast nameParts else nameParts)
        in map (\<lambda>c. if c = CHR ''-'' then CHR '' '' else c)
             (map (\<lambda>c. if c = CHR ''_'' then CHR '' '' else c) (joinWith ''.'' nameParts)))"

section \<open>Prompt assembler (the prompt effect of the Generate tab)\<close>

text \<open>The names of the elements that have an image and a name that is not blank, each
  trimmed and put in parentheses, joined with a comma and a space.\<close>

definition namesClause :: "Character list \<Rightarrow> string" where
  "namesClause cs =
     joinWith '', ''
       (map (\<lambda>c. ''('' @ trim (name c) @ '')'')
          (filter (\<lambda>c. char_image c \<noteq> None \<and> trim (name c) \<noteq> []) cs))"

definition characterNames :: "AppState \<Rightarrow> string" where
  "characterNames st = namesClause (characters st)"

definition elementNames :: "AppState \<Rightarrow> string" where
  "elementNames st = namesClause (additionalElements st)"

definition promptParts :: "AppState \<Rightarrow> string list" where
  "promptParts st =
     [if sceneDescription st \<noteq> []
      then ''A cinematic scene with a strict aspect ratio of '' @ aspectRatio st @ '': '' @
           sceneDescription st @ ''.''
      else ''A cinematic scene with a strict aspect ratio of '' @ aspectRatio st @ ''.'',
      if characterNames st \<noteq> []
      then ''Featuring characters: '' @ characterNames st @ ''.'' else [],
      if elementNames st \<noteq> []
      then ''The scene also includes these key objects/props: '' @ elementNames st @ ''.''
      else [],
      if sceneLocationImage st \<noteq> None
      then ''Use the provided '' @ [CHR 0x22] @ ''Scene Location'' @ [CHR 0x22] @
           '' image as the background for the scene.''
      else [],
      ''The lighting should be '' @ lightingStyle st @ ''.'',
      ''Use a '' @ cameraPerspective st @ ''.'',
      if characterNames st \<noteq> [] \<or> elementNames st \<noteq> [] \<or> styleImage st \<noteq> None \<or>
         sceneLocationImage st \<noteq> None
      then ''Use the provided images for character, object, location, and style consistency.''
      else []]"

definition newPrompt :: "AppState \<Rightarrow> string" where
  "newPrompt st = joinWith '' '' (filter (\<lambda>p. p \<noteq> []) (promptParts st))"

definition promptEffect :: "AppState \<Rightarrow> AppState" where
  "promptEffect st =
     (if activeTab st \<noteq> GenerateTab then st else st\<lparr>generatedPrompt := newPrompt st\<rparr>)"

text \<open>
  For comparison with the code, the clause as the specification words it:
  "Featuring characters: (name), (name), \<dots>" over the characters that have both an image
  and a name that is not blank after trimming, in list order, and no clause at all when
  there is no such character.
\<close>

definition namedAndImaged :: "Character \<Rightarrow> bool" where
  "namedAndImaged c = (char_image c \<noteq> None \<and> trim (name c) \<noteq> [])"

fun specNameList :: "string list \<Rightarrow> string" where
  "specNameList [] = []"
| "specNameList [n] = ''('' @ n @ '')''"
| "specNameList (n # ns) = ''('' @ n @ ''), '' @ specNameList ns"

definition specFeaturingClause :: "string list \<Rightarrow> string" where
  "specFeaturingClause names =
     (if names = [] then [] else ''Featuring characters: '' @ specNameList names @ ''.'')"

section \<open>History store (handleAddToHistory)\<close>

text \<open>The kind of a history entry, \<^verbatim>\<open>'gen' | 'edit'\<close>, and its text in the entry's id.\<close>

datatype kind = Gen | Edit

fun kindString :: "kind \<Rightarrow> string" where
  "kindString Gen = ''gen''"
| "kindString Edit = ''edit''"

text \<open>
  The updater that \<^verbatim>\<open>handleAddToHistory(image, prompt, type)\<close> gives to \<^verbatim>\<open>setHistory\<close>. The
  clock is an input: \<open>now\<close> is what \<^verbatim>\<open>Date.now()\<close> returns and \<open>isoTime\<close> what
  \<^verbatim>\<open>new Date().toISOString()\<close> returns during the call. \<open>newHistoryItem\<close> is the object
  built inside the \<^verbatim>\<open>try\<close> block. When \<^verbatim>\<open>parseDataUrl\<close> throws, the handler catches, logs,
  and the history is not touched.
\<close>

definition newHistoryItem ::
  "string \<Rightarrow> string \<Rightarrow> kind \<Rightarrow> int \<Rightarrow> string \<Rightarrow> thrown + HistoryItem" where
  "newHistoryItem img prompt_text ty now isoTime =
     (case parseDataUrl img of
        Inl err \<Rightarrow> Inl err
      | Inr parsed \<Rightarrow>
          Inr \<lparr>item_id = kindString ty @ ''-'' @ numberToString now, item_image = parsed,
               prompt = prompt_text, createdAt = isoTime\<rparr>)"

definition handleAddToHistory ::
  "string \<Rightarrow> string \<Rightarrow> kind \<Rightarrow> int \<Rightarrow> string \<Rightarrow> HistoryItem list \<Rightarrow> HistoryItem list" where
  "handleAddToHistory img prompt_text ty now isoTime prev =
     (case newHistoryItem img prompt_text ty now isoTime of
        Inl err \<Rightarrow> prev
      | Inr item \<Rightarrow> take MAX_HISTORY_ITEMS (item # prev))"

text \<open>One call of the handler with the clock readings taken during it, and a sequence of
  calls applied to a history, first call first.\<close>

record AddCall =
  call_image :: string
  call_prompt :: string
  call_kind :: kind
  call_now :: int
  call_iso :: string

definition addCall :: "AddCall \<Rightarrow> HistoryItem list \<Rightarrow> HistoryItem list" where
  "addCall c prev =
     handleAddToHistory (call_image c) (call_prompt c) (call_kind c) (call_now c) (call_iso c) prev"

fun addCalls :: "AddCall list \<Rightarrow> HistoryItem list \<Rightarrow> HistoryItem list" where
  "addCalls [] hist = hist"
| "addCalls (c # cs) hist = addCalls cs (addCall c hist)"

text \<open>The entry that a call builds, if its image string parses, and the entries built by a
  sequence of calls, in the order of the calls.\<close>

definition callItem :: "AddCall \<Rightarrow> thrown + HistoryItem" where
  "callItem c =
     newHistoryItem (call_image c) (call_prompt c) (call_kind c) (call_now c) (call_iso c)"

fun addedItems :: "AddCall list \<Rightarrow> HistoryItem list" where
  "addedItems [] = []"
| "addedItems (c # cs) =
     (case callItem c of Inl err \<Rightarrow> addedItems cs | Inr item \<Rightarrow> item # addedItems cs)"

section \<open>Generation orchestrator (handleGenerateClick)\<close>

text \<open>The argument of \<^verbatim>\<open>generateStoryImage\<close>. The service itself is remote: it is a parameter
  of the model, a function of the number of the call and of the request, which returns the
  image string or the value it throws.\<close>

record GenRequest =
  req_prompt :: string
  req_characterImages :: "ImageFile list"
  req_styleImage :: "ImageFile option"
  req_baseImage :: "ImageFile option"

type_synonym service = "nat \<Rightarrow> GenRequest \<Rightarrow> thrown + string"

text \<open>The clock readings (\<^verbatim>\<open>Date.now()\<close>, \<^verbatim>\<open>toISOString()\<close>) during the history add of the
  \<open>i\<close>-th iteration.\<close>

type_synonym clock = "nat \<Rightarrow> int \<times> string"

definition isGenerationDisabled :: "AppState \<Rightarrow> bool" where
  "isGenerationDisabled st =
     (let hasSceneDescription = (trim (sceneDescription st) \<noteq> []);
          hasCharacterImage = list_ex (\<lambda>c. char_image c \<noteq> None) (characters st);
          hasElementImage = list_ex (\<lambda>e. char_image e \<noteq> None) (additionalElements st);
          hasLocationImage = (sceneLocationImage st \<noteq> None)
      in \<not> (hasSceneDescription \<or> hasCharacterImage \<or> hasElementImage \<or> hasLocationImage)
         \<or> genLoading st)"

text \<open>\<^verbatim>\<open>xs.map(c => c.image).filter(img => img !== null)\<close>.\<close>

definition imagesOf :: "Character list \<Rightarrow> ImageFile list" where
  "imagesOf cs = List.map_filter char_image cs"

definition generateRequest :: "AppState \<Rightarrow> GenRequest" where
  "generateRequest st =
     (let characterImages = imagesOf (characters st);
          elementImages = imagesOf (additionalElements st);
          locationImage = (case sceneLocationImage st of None \<Rightarrow> [] | Some l \<Rightarrow> [l])
      in \<lparr>req_prompt = generatedPrompt st,
          req_characterImages = locationImage @ characterImages @ elementImages,
          req_styleImage = styleImage st, req_baseImage = None\<rparr>)"

text \<open>
  The loop \<^verbatim>\<open>for (let i = 0; i < numberOfImages; i++)\<close> inside the \<^verbatim>\<open>try\<close>. The result is
  the value thrown by the service, if any, and the state at that moment.
  \<open>allGeneratedImages\<close> is the local list of the images received so far.
\<close>

function generateLoop ::
  "service \<Rightarrow> clock \<Rightarrow> GenRequest \<Rightarrow> nat \<Rightarrow> nat \<Rightarrow> string list \<Rightarrow> AppState
     \<Rightarrow> thrown option \<times> AppState" where
  "generateLoop svc clk req n i allGeneratedImages st =
     (if i < n then
        (case svc i req of
           Inl err \<Rightarrow> (Some err, st)
         | Inr resultImage \<Rightarrow>
             (let allGeneratedImages = allGeneratedImages @ [resultImage];
                  st = st\<lparr>generatedImages := allGeneratedImages\<rparr>;
                  st = st\<lparr>history :=
                         handleAddToHistory resultImage (req_prompt req) Gen
                           (fst (clk i)) (snd (clk i)) (history st)\<rparr>
              in generateLoop svc clk req n (Suc i) allGeneratedImages st))
      else (None, st))"
  by pat_completeness auto
termination
  by (relation "measure (\<lambda>(svc, clk, req, n, i, imgs, st). n - i)") auto

declare generateLoop.simps [simp del]

text \<open>\<^verbatim>\<open>err instanceof Error ? err.message : 'An unknown error occurred.'\<close>\<close>

fun errorText :: "thrown \<Rightarrow> string" where
  "errorText (Error message) = message"
| "errorText NonError = ''An unknown error occurred.''"

definition handleGenerateClick :: "service \<Rightarrow> clock \<Rightarrow> AppState \<Rightarrow> AppState" where
  "handleGenerateClick svc clk st =
     (if isGenerationDisabled st then st
      else
        let req = generateRequest st;
            st1 = st\<lparr>genLoading := True, genError := None, generatedImages := []\<rparr>;
            (err, st2) = generateLoop svc clk req (numberOfImages st) 0 [] st1;
            st3 = (case err of None \<Rightarrow> st2
                   | Some e \<Rightarrow> st2\<lparr>genError := Some (errorText e)\<rparr>)
        in st3\<lparr>genLoading := False\<rparr>)"

section \<open>Named-list editor state\<close>

text \<open>
  The four image-upload handlers. \<open>img\<close> is \<open>None\<close> when the image is cleared
  (\<^verbatim>\<open>onImageUpload(null)\<close>), \<open>fileName\<close> is \<open>None\<close> when the argument is left out.
  \<^verbatim>\<open>image && fileName\<close> holds when there is an image and a file name that is not empty:
  \<open>nameFromUpload\<close> is then the name computed from the file name, and \<open>None\<close>
  otherwise. \<^verbatim>\<open>c.name || d\<close> is \<open>d\<close> when the name is empty.
\<close>

definition nameFromUpload :: "ImageFile option \<Rightarrow> string option \<Rightarrow> string option" where
  "nameFromUpload img fileName =
     (case (img, fileName) of
        (Some i, Some f) \<Rightarrow> if f \<noteq> [] then Some (getNameFromFilename f) else None
      | _ \<Rightarrow> None)"

definition positionalName :: "string \<Rightarrow> int \<Rightarrow> Character list \<Rightarrow> string" where
  "positionalName noun ident prev =
     noun @ '' '' @ numberToString (findIndex (\<lambda>c. char_id c = ident) prev + 1)"

definition handleCharacterImageUpload ::
  "int \<Rightarrow> ImageFile option \<Rightarrow> string option \<Rightarrow> AppState \<Rightarrow> AppState" where
  "handleCharacterImageUpload ident img fileName st =
     st\<lparr>characters :=
          (let prev = characters st in
           map (\<lambda>c. if char_id c = ident then
                       (let newName =
                          (case nameFromUpload img fileName of
                             Some n \<Rightarrow> n
                           | None \<Rightarrow>
                               if name c \<noteq> [] then name c
                               else positionalName ''Character'' ident prev)
                        in c\<lparr>char_image := img, name := newName\<rparr>)
                     else c) prev)\<rparr>"

definition handleElementImageUpload ::
  "int \<Rightarrow> ImageFile option \<Rightarrow> string option \<Rightarrow> AppState \<Rightarrow> AppState" where
  "handleElementImageUpload ident img fileName st =
     st\<lparr>additionalElements :=
          (let prev = additionalElements st in
           map (\<lambda>c. if char_id c = ident then
                       (let newName =
                          (case nameFromUpload img fileName of
                             Some n \<Rightarrow> n
                           | None \<Rightarrow>
                               if name c \<noteq> [] then name c
                               else positionalName ''Object'' ident prev)
                        in c\<lparr>char_image := img, name := newName\<rparr>)
                     else c) prev)\<rparr>"

definition handleEditCharImageUpload ::
  "int \<Rightarrow> ImageFile option \<Rightarrow> string option \<Rightarrow> AppState \<Rightarrow> AppState" where
  "handleEditCharImageUpload ident img fileName st =
     st\<lparr>editAddChars :=
          (let prev = editAddChars st in
           map (\<lambda>c. if char_id c = ident then
                       (let newName =
                          (case nameFromUpload img fileName of
                             Some n \<Rightarrow> n
                           | None \<Rightarrow> positionalName ''Character'' ident prev)
                        in c\<lparr>char_image := img, name := newName\<rparr>)
                     else c) prev)\<rparr>"

definition handleEditObjImageUpload ::
  "int \<Rightarrow> ImageFile option \<Rightarrow> string option \<Rightarrow> AppState \<Rightarrow> AppState" where
  "handleEditObjImageUpload ident img fileName st =
     st\<lparr>editAddObjs :=
          (let prev = editAddObjs st in
           map (\<lambda>c. if char_id c = ident then
                       (let newName =
                          (case nameFromUpload img fileName of
                             Some n \<Rightarrow> n
                           | None \<Rightarrow> positionalName ''Object'' ident prev)
                        in c\<lparr>char_image := img, name := newName\<rparr>)
                     else c) prev)\<rparr>"

section \<open>Bulk add of dropped files (handleAdditionalElementsFilesAdd)\<close>

text \<open>A dropped \<^verbatim>\<open>File\<close>: its name, its declared type, and what \<^verbatim>\<open>readAsDataURL\<close> leaves in
  \<^verbatim>\<open>reader.result\<close> (\<open>None\<close> when the read fails and the result is not a string).\<close>

record File =
  file_name :: string
  file_type :: string
  file_result :: "string option"

text \<open>The promise made for one file: it resolves with the name and the parsed image, or
  rejects with what the reader or \<^verbatim>\<open>parseDataUrl\<close> raised.\<close>

definition filePromise :: "File \<Rightarrow> thrown + (string \<times> ImageFile)" where
  "filePromise file =
     (case file_result file of
        None \<Rightarrow> Inl NonError
      | Some result \<Rightarrow>
          (case parseDataUrl result of
             Inl err \<Rightarrow> Inl err
           | Inr parsedImage \<Rightarrow> Inr (getNameFromFilename (file_name file), parsedImage)))"

text \<open>\<^verbatim>\<open>Promise.all\<close>: the values in the order of the promises when all resolve, a rejection
  as soon as one rejects. Which rejection wins depends on timing; the handler only logs it,
  and the model returns the first in list order.\<close>

fun promiseAll :: "(thrown + 'a) list \<Rightarrow> thrown + 'a list" where
  "promiseAll [] = Inr []"
| "promiseAll (p # ps) =
     (case p of
        Inl err \<Rightarrow> Inl err
      | Inr v \<Rightarrow> (case promiseAll ps of Inl err \<Rightarrow> Inl err | Inr vs \<Rightarrow> Inr (v # vs)))"

text \<open>\<^verbatim>\<open>file.type.startsWith('image/')\<close>\<close>

definition isImageFile :: "File \<Rightarrow> bool" where
  "isImageFile file = (take 6 (file_type file) = ''image/'')"

text \<open>The elements built in the \<^verbatim>\<open>then\<close> branch. \<^verbatim>\<open>Date.now()\<close> is evaluated inside the
  callback of \<^verbatim>\<open>map\<close>, once for each element: \<open>now index\<close> is the reading taken for the
  element at \<open>index\<close>.\<close>

definition newCharacters :: "(nat \<Rightarrow> int) \<Rightarrow> (string \<times> ImageFile) list \<Rightarrow> Character list" where
  "newCharacters now newElementsData =
     map (\<lambda>(index, d). \<lparr>char_id = now index + int index, name = fst d, char_image = Some (snd d)\<rparr>)
       (enumerate 0 newElementsData)"

definition handleAdditionalElementsFilesAdd ::
  "File list \<Rightarrow> (nat \<Rightarrow> int) \<Rightarrow> AppState \<Rightarrow> AppState" where
  "handleAdditionalElementsFilesAdd files now st =
     (case promiseAll (map filePromise (filter isImageFile files)) of
        Inr newElementsData \<Rightarrow>
          st\<lparr>additionalElements := additionalElements st @ newCharacters now newElementsData\<rparr>
      | Inl err \<Rightarrow>
          st\<lparr>genError := Some ''One or more images could not be processed. Please try again.''\<rparr>)"

section \<open>Sample inputs\<close>

text \<open>A service that answers its calls from a list, one answer per call, and throws once
  the list is used up; a clock that starts at a fixed time and advances by one millisecond
  per reading. Both serve as concrete inputs in the examples below.\<close>

definition scriptedService :: "(thrown + string) list \<Rightarrow> service" where
  "scriptedService answers i req = (if i < length answers then answers ! i else Inl NonError)"

definition sampleClock :: clock where
  "sampleClock i = (1700000000000 + int i, ''2023-11-14T22:13:20.000Z'')"

text \<open>Two clocks for the elements of a batch: one that advances by one millisecond from one
  element to the next, and one that is set back by one millisecond in between
  (\<^verbatim>\<open>Date.now()\<close> is the wall clock, which an adjustment can move backwards).\<close>

definition tickingNow :: "nat \<Rightarrow> int" where
  "tickingNow index = 1700000000000 + int index"

definition steppedBackNow :: "nat \<Rightarrow> int" where
  "steppedBackNow index = 1700000000000 - int index"

text \<open>Two image files that decode, and one whose content is no data URL.\<close>

definition redCarFile :: File where
  "redCarFile = \<lparr>file_name = ''red_car.png'', file_type = ''image/png'',
                  file_result = Some ''data:image/png;base64,AAAA''\<rparr>"

definition oldMapFile :: File where
  "oldMapFile = \<lparr>file_name = ''old-map.v2.jpg'', file_type = ''image/jpeg'',
                  file_result = Some ''data:image/jpeg;base64,BBBB''\<rparr>"

definition brokenFile :: File where
  "brokenFile = \<lparr>file_name = ''broken.png'', file_type = ''image/png'',
                  file_result = Some ''garbage''\<rparr>"

section \<open>Properties of the image codec helper\<close>

lemma splitOn_last_piece:
  "dropWhile (\<lambda>c. c \<noteq> sep) s = [] \<Longrightarrow> splitOn sep s = [s]"
  by (subst splitOn.simps) (simp only: list.case)

lemma splitOn_next_piece:
  "dropWhile (\<lambda>c. c \<noteq> sep) s = x # rest \<Longrightarrow>
     splitOn sep s = takeWhile (\<lambda>c. c \<noteq> sep) s # splitOn sep rest"
  by (subst splitOn.simps) (simp only: list.case)

lemma splitOn_nonempty: "splitOn sep s \<noteq> []"
  by (cases "dropWhile (\<lambda>c. c \<noteq> sep) s")
     (simp_all add: splitOn_last_piece splitOn_next_piece)

lemma splitOn_hd: "hd (splitOn sep s) = takeWhile (\<lambda>c. c \<noteq> sep) s"
proof (cases "dropWhile (\<lambda>c. c \<noteq> sep) s")
  case Nil
  then have "\<forall>c\<in>set s. c \<noteq> sep" by (simp add: dropWhile_eq_Nil_conv)
  then have tw: "takeWhile (\<lambda>c. c \<noteq> sep) s = s" by (simp add: takeWhile_eq_all_conv)
  show ?thesis by (simp only: splitOn_last_piece [OF Nil] list.sel tw)
next
  case (Cons x rest)
  from splitOn_next_piece [OF this] show ?thesis by simp
qed

lemma splitOn_no_sep: "sep \<notin> set s \<Longrightarrow> splitOn sep s = [s]"
proof -
  assume "sep \<notin> set s"
  then have "dropWhile (\<lambda>c. c \<noteq> sep) s = []" by (auto simp: dropWhile_eq_Nil_conv)
  then show ?thesis by (rule splitOn_last_piece)
qed

lemma splitOn_append: "sep \<notin> set p \<Longrightarrow> splitOn sep (p @ sep # rest) = p # splitOn sep rest"
proof -
  assume h: "sep \<notin> set p"
  then have a: "\<forall>c\<in>set p. c \<noteq> sep" by auto
  have d: "dropWhile (\<lambda>c. c \<noteq> sep) (p @ sep # rest) = sep # rest"
    using a by (simp add: dropWhile_append)
  have t: "takeWhile (\<lambda>c. c \<noteq> sep) (p @ sep # rest) = p"
    using a by (simp add: takeWhile_append)
  show ?thesis using splitOn_next_piece [OF d] t by simp
qed

lemma secondPart_no_sep: "secondPart (splitOn sep s) = Some b \<Longrightarrow> sep \<notin> set b"
proof -
  assume h: "secondPart (splitOn sep s) = Some b"
  show ?thesis
  proof (cases "dropWhile (\<lambda>c. c \<noteq> sep) s")
    case Nil
    from splitOn_last_piece [OF this] h show ?thesis by simp
  next
    case (Cons x rest)
    have "splitOn sep rest \<noteq> []"
      by (cases "dropWhile (\<lambda>c. c \<noteq> sep) rest")
         (simp_all add: splitOn_last_piece splitOn_next_piece)
    then obtain q qs where q: "splitOn sep rest = q # qs" by (cases "splitOn sep rest") auto
    then have "q = takeWhile (\<lambda>c. c \<noteq> sep) rest" using splitOn_hd [of sep rest] by simp
    moreover have "b = q" using h splitOn_next_piece [OF Cons] q by simp
    ultimately show ?thesis by (auto dest: set_takeWhileD)
  qed
qed

lemma lazyUntilSemi_Some:
  "lazyUntilSemi cs = Some m \<Longrightarrow>
     CHR '';'' \<in> set cs \<and> m = takeWhile (\<lambda>c. c \<noteq> CHR '';'') cs \<and> (\<forall>c\<in>set m. \<not> isLineTerminator c)"
  by (induction cs arbitrary: m) (auto split: if_splits)

lemma lazyUntilSemi_append:
  "CHR '';'' \<notin> set m \<Longrightarrow> \<forall>c\<in>set m. \<not> isLineTerminator c \<Longrightarrow>
     lazyUntilSemi (m @ CHR '';'' # rest) = Some m"
  by (induction m) auto

lemma matchMime_Some:
  "matchMime s = Some m \<Longrightarrow>
     CHR '';'' \<in> set s \<and> CHR '':'' \<in> set s \<and> set m \<subseteq> set s \<and> CHR '';'' \<notin> set m \<and> (\<forall>c\<in>set m. \<not> isLineTerminator c)"
proof (induction s)
  case Nil
  then show ?case by simp
next
  case (Cons c cs)
  show ?case
  proof (cases "c = CHR '':'' \<and> lazyUntilSemi cs \<noteq> None")
    case True
    then have "lazyUntilSemi cs = Some m" using Cons.prems by auto
    from lazyUntilSemi_Some [OF this] True show ?thesis
      by (auto dest: set_takeWhileD)
  next
    case False
    then have "matchMime cs = Some m" using Cons.prems by (auto split: if_splits option.splits)
    from Cons.IH [OF this] show ?thesis by auto
  qed
qed

lemma matchMime_data:
  assumes "CHR '';'' \<notin> set m" and "\<forall>c\<in>set m. \<not> isLineTerminator c"
  shows "matchMime (''data:'' @ m @ CHR '';'' # rest) = Some m"
  using lazyUntilSemi_append [OF assms, of rest] by simp

lemma parseDataUrl_fields:
  assumes "parseDataUrl s = Inr r"
  shows "CHR '','' \<notin> set (mimeType r)" and "CHR '';'' \<notin> set (mimeType r)"
    and "\<forall>c\<in>set (mimeType r). \<not> isLineTerminator c"
    and "base64 r = secondPart (splitOn CHR '','' s)"
proof -
  from assms obtain m where m: "matchMime (hd (splitOn CHR '','' s)) = Some m"
    and r: "r = \<lparr>base64 = secondPart (splitOn CHR '','' s), mimeType = m\<rparr>"
    by (auto simp: parseDataUrl_def Let_def split: option.splits)
  from matchMime_Some [OF m] have sub: "set m \<subseteq> set (takeWhile (\<lambda>c. c \<noteq> CHR '','') s)"
    and semi: "CHR '';'' \<notin> set m" and lt: "\<forall>c\<in>set m. \<not> isLineTerminator c"
    by (simp_all add: splitOn_hd)
  from sub show "CHR '','' \<notin> set (mimeType r)" using r by (auto dest: set_takeWhileD)
  from semi show "CHR '';'' \<notin> set (mimeType r)" using r by simp
  from lt show "\<forall>c\<in>set (mimeType r). \<not> isLineTerminator c" using r by simp
  show "base64 r = secondPart (splitOn CHR '','' s)" using r by simp
qed

lemma parseDataUrl_encodeDataUrl:
  assumes c: "CHR '','' \<notin> set (mimeType r)" and s: "CHR '';'' \<notin> set (mimeType r)"
    and l: "\<forall>c\<in>set (mimeType r). \<not> isLineTerminator c"
    and b: "base64 r = Some b" and bc: "CHR '','' \<notin> set b"
  shows "parseDataUrl (encodeDataUrl r) = Inr r"
proof -
  let ?p = "''data:'' @ mimeType r @ '';base64''"
  have e: "encodeDataUrl r = ?p @ CHR '','' # b" using b by (simp add: encodeDataUrl_def)
  have "CHR '','' \<notin> set ?p" using c by simp
  then have parts: "splitOn CHR '','' (encodeDataUrl r) = [?p, b]"
    unfolding e using splitOn_append [of "CHR '',''" ?p b] splitOn_no_sep [OF bc] by simp
  have "matchMime ?p = Some (mimeType r)"
    using matchMime_data [OF s l, of "''base64''"] by simp
  then show ?thesis using parts b by (simp add: parseDataUrl_def)
qed

lemma parseDataUrl_no_semicolon:
  "CHR '';'' \<notin> set s \<Longrightarrow> parseDataUrl s = Inl (Error ''Invalid data URL'')"
proof -
  assume h: "CHR '';'' \<notin> set s"
  have "matchMime (hd (splitOn CHR '','' s)) = None"
  proof (cases "matchMime (hd (splitOn CHR '','' s))")
    case None then show ?thesis .
  next
    case (Some m)
    from matchMime_Some [OF this] have "CHR '';'' \<in> set (takeWhile (\<lambda>c. c \<noteq> CHR '','') s)"
      by (simp add: splitOn_hd)
    with h show ?thesis by (auto dest: set_takeWhileD)
  qed
  then show ?thesis by (simp add: parseDataUrl_def)
qed

lemma lazyUntilSemi_takeWhile:
  "CHR '';'' \<in> set cs \<Longrightarrow> \<forall>c\<in>set (takeWhile (\<lambda>c. c \<noteq> CHR '';'') cs). \<not> isLineTerminator c \<Longrightarrow>
     lazyUntilSemi cs = Some (takeWhile (\<lambda>c. c \<noteq> CHR '';'') cs)"
  by (induction cs) auto

lemma takeWhile_before_semicolon:
  "takeWhile (\<lambda>c. c \<noteq> CHR '';'') (m @ CHR '';'' # rest) = takeWhile (\<lambda>c. c \<noteq> CHR '';'') m"
  by (induction m) auto

text \<open>
  Claim C3: every input string that lacks the \<open>;\<close> delimiter or lacks the \<open>,\<close> delimiter
  makes \<^verbatim>\<open>parseDataUrl\<close> fail, and no partial record is produced.

  The first half holds (\<open>parseDataUrl_no_semicolon\<close>). The second does not: the function
  never looks at whether \<^verbatim>\<open>split(',')\<close> produced a second piece. On the string below, which
  has no comma, it returns a record whose \<open>base64\<close> field is \<^verbatim>\<open>undefined\<close>.
\<close>

theorem parseDataUrl_missing_comma:
  "CHR '','' \<notin> set ''data:image/png;base64'' \<and>
   parseDataUrl ''data:image/png;base64'' = Inr \<lparr>base64 = None, mimeType = ''image/png''\<rparr>"
  by (simp add: parseDataUrl_def splitOn.simps isLineTerminator_def)

text \<open>
  Claim C4 (round trip): for every string \<open>data:{mediaType};base64,{payload}\<close> with a
  non-empty media type and a payload without comma, encoding the decoded record gives a
  string that decodes to the same record.

  As stated the claim needs the decoding to succeed, and it does not when the media type
  itself contains a comma (the text before the first comma then has no semicolon) or a line
  feed (the dot of the regular expression does not cross it).
\<close>

theorem parseDataUrl_roundtrip_counterexample:
  "''data:a,b;base64,xyz'' = ''data:'' @ ''a,b'' @ '';base64,'' @ ''xyz'' \<and> ''a,b'' \<noteq> [] \<and>
   CHR '','' \<notin> set ''xyz'' \<and>
   parseDataUrl ''data:a,b;base64,xyz'' = Inl (Error ''Invalid data URL'') \<and>
   parseDataUrl (''data:'' @ [CHR ''a'', CHR 0x0A, CHR ''b''] @ '';base64,'' @ ''xyz'')
     = Inl (Error ''Invalid data URL'')"
  by (simp add: parseDataUrl_def splitOn.simps isLineTerminator_def)

text \<open>
  Claim C4, amended: when moreover the media type contains no comma and no line terminator,
  the string decodes, to the payload and to the media type up to its first semicolon, and
  the encoding of that record decodes to the same record.
\<close>

theorem parseDataUrl_roundtrip:
  assumes form: "s = ''data:'' @ mediaType @ '';base64,'' @ payload"
    and ne: "mediaType \<noteq> []"
    and mc: "CHR '','' \<notin> set mediaType"
    and ml: "\<forall>c\<in>set mediaType. \<not> isLineTerminator c"
    and pc: "CHR '','' \<notin> set payload"
  shows "\<exists>r. parseDataUrl s = Inr r \<and> parseDataUrl (encodeDataUrl r) = Inr r \<and>
             base64 r = Some payload \<and>
             mimeType r = takeWhile (\<lambda>c. c \<noteq> CHR '';'') mediaType"
proof -
  let ?p = "''data:'' @ mediaType @ '';base64''"
  let ?m = "takeWhile (\<lambda>c. c \<noteq> CHR '';'') mediaType"
  have "CHR '','' \<notin> set ?p" using mc by simp
  then have "splitOn CHR '','' (?p @ CHR '','' # payload) = [?p, payload]"
    using splitOn_append [of "CHR '',''" ?p payload] splitOn_no_sep [OF pc] by simp
  moreover have "s = ?p @ CHR '','' # payload" unfolding form by simp
  ultimately have parts: "splitOn CHR '','' s = [?p, payload]" by simp
  have tw: "takeWhile (\<lambda>c. c \<noteq> CHR '';'') (mediaType @ CHR '';'' # ''base64'') = ?m"
    by (rule takeWhile_before_semicolon)
  have m1: "CHR '';'' \<notin> set ?m" by (auto dest: set_takeWhileD)
  have m2: "\<forall>c\<in>set ?m. \<not> isLineTerminator c" using ml by (auto dest: set_takeWhileD)
  have "lazyUntilSemi (mediaType @ CHR '';'' # ''base64'') = Some ?m"
    using lazyUntilSemi_takeWhile [of "mediaType @ CHR '';'' # ''base64''"] m2
    unfolding tw by simp
  then have mm: "matchMime ?p = Some ?m" by simp
  let ?r = "\<lparr>base64 = Some payload, mimeType = ?m\<rparr>"
  have p: "parseDataUrl s = Inr ?r" unfolding parseDataUrl_def parts using mm by simp
  have "CHR '','' \<notin> set ?m" using mc by (auto dest: set_takeWhileD)
  then have "parseDataUrl (encodeDataUrl ?r) = Inr ?r"
    using parseDataUrl_encodeDataUrl [of ?r payload] m1 m2 pc by simp
  with p show ?thesis by simp
qed

theorem parseDataUrl_roundtrip_witness:
  "\<exists>r. parseDataUrl ''data:image/png;base64,iVBORw0KGgo='' = Inr r \<and>
       parseDataUrl (encodeDataUrl r) = Inr r \<and>
       base64 r = Some ''iVBORw0KGgo='' \<and> mimeType r = ''image/png''"
  using parseDataUrl_roundtrip [of "''data:image/png;base64,iVBORw0KGgo=''" "''image/png''" "''iVBORw0KGgo=''"]
  by (simp add: isLineTerminator_def)

section \<open>Properties of the prompt assembler\<close>

lemma joinWith_Cons: "joinWith sep (p # ps) = p @ concat (map (\<lambda>q. sep @ q) ps)"
  by (induction sep ps arbitrary: p rule: joinWith.induct) simp_all

lemma joinWith_parenthesised:
  "joinWith '', '' (map (\<lambda>n. ''('' @ n @ '')'') ns) = specNameList ns"
  by (induction ns rule: specNameList.induct) simp_all

lemma namesClause_spec:
  "namesClause cs = specNameList (map (\<lambda>c. trim (name c)) (filter namedAndImaged cs))"
proof -
  have "map (\<lambda>c. ''('' @ trim (name c) @ '')'') (filter namedAndImaged cs)
        = map (\<lambda>n. ''('' @ n @ '')'') (map (\<lambda>c. trim (name c)) (filter namedAndImaged cs))"
    by (simp add: comp_def)
  then show ?thesis
    unfolding namesClause_def namedAndImaged_def [symmetric, abs_def]
    by (simp only: joinWith_parenthesised)
qed

lemma specNameList_empty: "specNameList ns = [] \<longleftrightarrow> ns = []"
  by (induction ns rule: specNameList.induct) simp_all

text \<open>
  Claim C6: the "Featuring characters" clause lists exactly the characters that have both a
  name that is not blank after trimming and an image, in list order, and is left out when no
  character qualifies.

  The second part of the prompt is the clause of the specification over those characters;
  the prompt is the opening clause, then (after one space) that clause unless it is empty,
  then the remaining non-empty parts, each after one space.
\<close>

theorem featuring_characters_clause:
  "promptParts st ! 1 =
     specFeaturingClause (map (\<lambda>c. trim (name c)) (filter namedAndImaged (characters st))) \<and>
   newPrompt st =
     promptParts st ! 0 @
     (if filter namedAndImaged (characters st) = [] then []
      else '' '' @
        specFeaturingClause (map (\<lambda>c. trim (name c)) (filter namedAndImaged (characters st)))) @
     concat (map (\<lambda>p. '' '' @ p) (filter (\<lambda>p. p \<noteq> []) (drop 2 (promptParts st))))"
proof -
  define featured where
    "featured = map (\<lambda>c. trim (name c)) (filter namedAndImaged (characters st))"
  define p0 where "p0 = promptParts st ! 0"
  define rest where "rest = drop 2 (promptParts st)"
  have 1: "promptParts st ! 1 = specFeaturingClause featured"
    by (simp add: promptParts_def characterNames_def specNameList_empty specFeaturingClause_def
        featured_def namesClause_spec)
  have p0: "p0 \<noteq> []" by (simp add: p0_def promptParts_def)
  have "promptParts st = promptParts st ! 0 # promptParts st ! 1 # drop 2 (promptParts st)"
    by (simp add: promptParts_def)
  then have shape: "promptParts st = p0 # specFeaturingClause featured # rest"
    by (simp only: 1 p0_def rest_def)
  have clause: "specFeaturingClause featured = [] \<longleftrightarrow> featured = []"
    by (simp add: specFeaturingClause_def)
  have "newPrompt st =
           p0 @ (if featured = [] then [] else '' '' @ specFeaturingClause featured) @
           concat (map (\<lambda>p. '' '' @ p) (filter (\<lambda>p. p \<noteq> []) rest))"
    unfolding newPrompt_def shape by (simp add: p0 clause joinWith_Cons)
  with 1 show ?thesis
    unfolding featured_def p0_def rest_def by (simp only: map_is_Nil_conv simp_thms)
qed

text \<open>The example of the claim: of a character named "Hero" with an image and a character
  without image, only "Hero" is in the clause.\<close>

theorem featuring_characters_clause_witness:
  "promptParts
     (initialState\<lparr>characters :=
        [\<lparr>char_id = 1, name = ''Hero'',
          char_image = Some \<lparr>base64 = Some ''AAAA'', mimeType = ''image/png''\<rparr>\<rparr>,
         \<lparr>char_id = 2, name = ''Villain'', char_image = None\<rparr>]\<rparr>) ! 1
   = ''Featuring characters: (Hero).''"
  using featuring_characters_clause [of "initialState\<lparr>characters :=
        [\<lparr>char_id = 1, name = ''Hero'',
          char_image = Some \<lparr>base64 = Some ''AAAA'', mimeType = ''image/png''\<rparr>\<rparr>,
         \<lparr>char_id = 2, name = ''Villain'', char_image = None\<rparr>]\<rparr>"]
  by (simp add: namedAndImaged_def trim_def isWhiteSpace_def specFeaturingClause_def)

text \<open>
  Claim C7: with an empty scene description, no characters, no objects, no location image,
  no style image, lighting "L", camera "C" and aspect ratio "16:9", the prompt is exactly the
  aspect-ratio clause, the lighting clause and the camera clause, separated by single spaces;
  the parts for the characters, the objects, the location and the consistency clause are
  empty.
\<close>

theorem minimal_prompt:
  assumes "sceneDescription st = []" and "characters st = []" and "additionalElements st = []"
    and "sceneLocationImage st = None" and "styleImage st = None"
    and "lightingStyle st = ''L''" and "cameraPerspective st = ''C''"
    and "aspectRatio st = ''16:9''"
  shows "newPrompt st =
           ''A cinematic scene with a strict aspect ratio of 16:9. The lighting should be L. Use a C.'' \<and>
         promptParts st =
           [''A cinematic scene with a strict aspect ratio of 16:9.'', [], [], [],
            ''The lighting should be L.'', ''Use a C.'', []]"
  using assms
  by (simp add: newPrompt_def promptParts_def characterNames_def elementNames_def
      namesClause_def)

theorem minimal_prompt_witness:
  "generatedPrompt
     (promptEffect
        (initialState\<lparr>characters := [], lightingStyle := ''L'', cameraPerspective := ''C''\<rparr>))
   = ''A cinematic scene with a strict aspect ratio of 16:9. The lighting should be L. Use a C.''"
  using minimal_prompt
    [of "initialState\<lparr>characters := [], lightingStyle := ''L'', cameraPerspective := ''C''\<rparr>"]
  by (simp add: initialState_def promptEffect_def)

section \<open>Properties of the history store\<close>

lemma take_append_take: "take n (xs @ take n ys) = take n (xs @ ys)"
  by (simp add: take_append min_def)

lemma addCall_cases:
  "addCall c hist =
     (case callItem c of Inl err \<Rightarrow> hist | Inr item \<Rightarrow> take MAX_HISTORY_ITEMS (item # hist))"
  by (simp add: addCall_def callItem_def handleAddToHistory_def)

lemma addCall_length:
  "length hist \<le> MAX_HISTORY_ITEMS \<Longrightarrow> length (addCall c hist) \<le> MAX_HISTORY_ITEMS"
  by (simp add: addCall_cases split: sum.splits)

lemma addCalls_append: "addCalls (cs @ ds) hist = addCalls ds (addCalls cs hist)"
  by (induction cs arbitrary: hist) simp_all

lemma addCalls_take:
  "length hist \<le> MAX_HISTORY_ITEMS \<Longrightarrow>
     addCalls cs hist = take MAX_HISTORY_ITEMS (rev (addedItems cs) @ hist)"
proof (induction cs arbitrary: hist)
  case Nil
  then show ?case by simp
next
  case (Cons c cs)
  have "addCalls (c # cs) hist = take MAX_HISTORY_ITEMS (rev (addedItems cs) @ addCall c hist)"
    using Cons.IH [OF addCall_length [OF Cons.prems]] by simp
  then show ?case
    by (cases "callItem c") (simp_all add: addCall_cases take_append_take)
qed

lemma addCalls_rejected:
  "callItem c = Inl err \<Longrightarrow> addCalls (replicate n c) hist = hist"
  by (induction n) (simp_all add: addCall_cases)

text \<open>
  Claim C1: for every sequence of add operations the history is most-recent-first and never
  longer than 20; each add inserts the new entry at the head, and after more than 20 adds
  the store holds exactly the 20 most recently added entries.

  As stated this fails: an add whose image string does not parse is caught and logged, and
  inserts nothing. After 21 such adds on the empty history, the history is still empty.
\<close>

theorem history_add_counterexample:
  "MAX_HISTORY_ITEMS <
     length (replicate 21 \<lparr>call_image = ''x'', call_prompt = ''p'', call_kind = Gen,
                            call_now = 0, call_iso = ''t''\<rparr>) \<and>
   addCalls (replicate 21 \<lparr>call_image = ''x'', call_prompt = ''p'', call_kind = Gen,
                            call_now = 0, call_iso = ''t''\<rparr>) [] = []"
proof -
  have "callItem \<lparr>call_image = ''x'', call_prompt = ''p'', call_kind = Gen,
                  call_now = 0, call_iso = ''t''\<rparr> = Inl (Error ''Invalid data URL'')"
    by (simp add: callItem_def newHistoryItem_def parseDataUrl_def splitOn.simps)
  from addCalls_rejected [OF this] show ?thesis by (simp add: MAX_HISTORY_ITEMS_def)
qed

text \<open>
  Claim C1, amended: starting from a history of at most 20 entries, after every sequence of
  adds the history has at most 20 entries and consists of the entries built by the adds whose
  image string parses, most recent first, followed by the older history, cut at 20. An add
  whose image parses puts its entry at the head; an add whose image does not parse leaves the
  history as it is. Once more than 20 entries have been added, the history is exactly the 20
  most recently added ones, most recent first.
\<close>

theorem history_capped_most_recent_first:
  assumes "length hist \<le> MAX_HISTORY_ITEMS"
  shows "length (addCalls cs hist) \<le> MAX_HISTORY_ITEMS \<and>
         addCalls cs hist = take MAX_HISTORY_ITEMS (rev (addedItems cs) @ hist) \<and>
         addCalls (cs @ [c]) hist =
           (case callItem c of
              Inl err \<Rightarrow> addCalls cs hist
            | Inr item \<Rightarrow> take MAX_HISTORY_ITEMS (item # addCalls cs hist)) \<and>
         (MAX_HISTORY_ITEMS < length (addedItems cs) \<longrightarrow>
            addCalls cs hist = take MAX_HISTORY_ITEMS (rev (addedItems cs)) \<and>
            length (addCalls cs hist) = MAX_HISTORY_ITEMS)"
proof -
  have t: "addCalls cs hist = take MAX_HISTORY_ITEMS (rev (addedItems cs) @ hist)"
    by (rule addCalls_take [OF assms])
  have l: "length (addCalls cs hist) \<le> MAX_HISTORY_ITEMS" by (simp add: t)
  have s: "addCalls (cs @ [c]) hist =
           (case callItem c of
              Inl err \<Rightarrow> addCalls cs hist
            | Inr item \<Rightarrow> take MAX_HISTORY_ITEMS (item # addCalls cs hist))"
    by (simp add: addCalls_append addCall_cases)
  have k: "MAX_HISTORY_ITEMS < length (addedItems cs) \<longrightarrow>
            addCalls cs hist = take MAX_HISTORY_ITEMS (rev (addedItems cs)) \<and>
            length (addCalls cs hist) = MAX_HISTORY_ITEMS"
    by (simp add: t)
  from l t s k show ?thesis by blast
qed

text \<open>Twenty-two adds of a well-formed image on the empty history: the ids left are those of
  the last twenty calls, the latest first.\<close>

theorem history_capped_most_recent_first_witness:
  "length ([] :: HistoryItem list) \<le> MAX_HISTORY_ITEMS \<and>
   MAX_HISTORY_ITEMS <
     length (addedItems
       (map (\<lambda>n. \<lparr>call_image = ''data:image/png;base64,AAAA'', call_prompt = ''p'',
                   call_kind = Gen, call_now = int n, call_iso = ''t''\<rparr>) [0..<22])) \<and>
   map item_id
     (addCalls
       (map (\<lambda>n. \<lparr>call_image = ''data:image/png;base64,AAAA'', call_prompt = ''p'',
                   call_kind = Gen, call_now = int n, call_iso = ''t''\<rparr>) [0..<22]) [])
   = map (\<lambda>n. ''gen-'' @ numberToString (int n)) (rev [2..<22])"
  using history_capped_most_recent_first
    [of "[]" "map (\<lambda>n. \<lparr>call_image = ''data:image/png;base64,AAAA'', call_prompt = ''p'',
                   call_kind = Gen, call_now = int n, call_iso = ''t''\<rparr>) [0..<22]"]
  by code_simp

section \<open>Properties of the generation orchestrator\<close>

text \<open>The three ways an iteration of the loop goes. The run of \<open>handleGenerateClick\<close> is
  modelled without other handlers running between its calls to the service.\<close>

lemma generateLoop_resolved:
  "i < n \<Longrightarrow> svc i req = Inr img \<Longrightarrow>
   generateLoop svc clk req n i imgs st =
     generateLoop svc clk req n (Suc i) (imgs @ [img])
       (st\<lparr>generatedImages := imgs @ [img],
           history := handleAddToHistory img (req_prompt req) Gen (fst (clk i)) (snd (clk i))
                        (history st)\<rparr>)"
  by (subst generateLoop.simps) (simp add: Let_def)

lemma generateLoop_rejected:
  "i < n \<Longrightarrow> svc i req = Inl err \<Longrightarrow> generateLoop svc clk req n i imgs st = (Some err, st)"
  by (subst generateLoop.simps) simp

lemma generateLoop_finished:
  "\<not> i < n \<Longrightarrow> generateLoop svc clk req n i imgs st = (None, st)"
  by (subst generateLoop.simps) simp

text \<open>
  Claim C2: in "generate" mode with three images requested, when the first call of the service
  succeeds and the second fails, the loop stops, the result list has exactly one entry, the
  history gains exactly one entry tagged "gen", the error shown is the failure message, and
  nothing of the first result is rolled back.

  As stated this fails when the string returned by the first call is no data URL: the image is
  shown, but no history entry is made for it.
\<close>

theorem generate_second_call_fails_counterexample:
  "\<not> isGenerationDisabled (initialState\<lparr>sceneDescription := ''a castle'', numberOfImages := 3\<rparr>) \<and>
   history (initialState\<lparr>sceneDescription := ''a castle'', numberOfImages := 3\<rparr>) = [] \<and>
   generatedImages
     (handleGenerateClick
        (scriptedService [Inr ''garbage'', Inl (Error ''boom''), Inr ''data:image/png;base64,AAAA''])
        sampleClock (initialState\<lparr>sceneDescription := ''a castle'', numberOfImages := 3\<rparr>))
     = [''garbage''] \<and>
   genError
     (handleGenerateClick
        (scriptedService [Inr ''garbage'', Inl (Error ''boom''), Inr ''data:image/png;base64,AAAA''])
        sampleClock (initialState\<lparr>sceneDescription := ''a castle'', numberOfImages := 3\<rparr>))
     = Some ''boom'' \<and>
   history
     (handleGenerateClick
        (scriptedService [Inr ''garbage'', Inl (Error ''boom''), Inr ''data:image/png;base64,AAAA''])
        sampleClock (initialState\<lparr>sceneDescription := ''a castle'', numberOfImages := 3\<rparr>))
     = []"
  by code_simp

text \<open>
  Claim C2, amended: when the first call returns a string that parses as a data URL and the
  second call throws an \<^verbatim>\<open>Error\<close> with a message, the third call is never made, the result
  list is the first image alone, the history is the old one with one new entry at its head
  whose id starts with "gen-" (cut at 20 entries), the error shown is that message, and the
  loading flag is off again. Every other state variable is as before.
\<close>

theorem generate_second_call_fails:
  assumes en: "\<not> isGenerationDisabled st" and n: "numberOfImages st = 3"
    and r0: "svc 0 (generateRequest st) = Inr img1" and p: "parseDataUrl img1 = Inr parsed"
    and r1: "svc 1 (generateRequest st) = Inl (Error message)"
  shows "handleGenerateClick svc clk st =
           st\<lparr>generatedImages := [img1],
               history := take MAX_HISTORY_ITEMS
                 (\<lparr>item_id = ''gen-'' @ numberToString (fst (clk 0)), item_image = parsed,
                   prompt = generatedPrompt st, createdAt = snd (clk 0)\<rparr> # history st),
               genError := Some message, genLoading := False\<rparr>"
proof -
  define req where "req = generateRequest st"
  define st1 where "st1 = st\<lparr>genLoading := True, genError := None, generatedImages := []\<rparr>"
  define st2 where
    "st2 = st1\<lparr>generatedImages := [] @ [img1],
               history := handleAddToHistory img1 (req_prompt req) Gen (fst (clk 0)) (snd (clk 0))
                            (history st1)\<rparr>"
  have a: "generateLoop svc clk req 3 0 [] st1 = generateLoop svc clk req 3 (Suc 0) ([] @ [img1]) st2"
    unfolding st2_def by (rule generateLoop_resolved) (simp_all add: req_def r0)
  have b: "generateLoop svc clk req 3 (Suc 0) ([] @ [img1]) st2 = (Some (Error message), st2)"
    using r1 by (intro generateLoop_rejected) (simp_all add: req_def)
  have L: "generateLoop svc clk req 3 0 [] st1 = (Some (Error message), st2)"
    using a b by (rule trans)
  have "handleGenerateClick svc clk st = st2\<lparr>genError := Some message, genLoading := False\<rparr>"
    by (simp only: handleGenerateClick_def en if_False Let_def n L [unfolded req_def st1_def]
        prod.case option.case errorText.simps)
  moreover have "req_prompt req = generatedPrompt st"
    by (simp add: req_def generateRequest_def Let_def)
  moreover have "handleAddToHistory img1 (generatedPrompt st) Gen (fst (clk 0)) (snd (clk 0)) (history st)
           = take MAX_HISTORY_ITEMS
                 (\<lparr>item_id = ''gen-'' @ numberToString (fst (clk 0)), item_image = parsed,
                   prompt = generatedPrompt st, createdAt = snd (clk 0)\<rparr> # history st)"
    by (simp add: handleAddToHistory_def newHistoryItem_def p)
  ultimately show ?thesis by (simp add: st2_def st1_def)
qed

theorem generate_second_call_fails_witness:
  "\<not> isGenerationDisabled (initialState\<lparr>sceneDescription := ''a castle'', numberOfImages := 3\<rparr>) \<and>
   numberOfImages (initialState\<lparr>sceneDescription := ''a castle'', numberOfImages := 3\<rparr>) = 3 \<and>
   parseDataUrl ''data:image/png;base64,AAAA'' = Inr \<lparr>base64 = Some ''AAAA'', mimeType = ''image/png''\<rparr> \<and>
   handleGenerateClick
     (scriptedService [Inr ''data:image/png;base64,AAAA'', Inl (Error ''boom''),
                       Inr ''data:image/png;base64,BBBB''])
     sampleClock (initialState\<lparr>sceneDescription := ''a castle'', numberOfImages := 3\<rparr>)
   = initialState\<lparr>sceneDescription := ''a castle'', numberOfImages := 3,
       generatedImages := [''data:image/png;base64,AAAA''],
       history := [\<lparr>item_id = ''gen-1700000000000'',
                    item_image = \<lparr>base64 = Some ''AAAA'', mimeType = ''image/png''\<rparr>,
                    prompt = [], createdAt = ''2023-11-14T22:13:20.000Z''\<rparr>],
       genError := Some ''boom''\<rparr>"
proof -
  let ?st = "initialState\<lparr>sceneDescription := ''a castle'', numberOfImages := 3\<rparr>"
  let ?svc = "scriptedService [Inr ''data:image/png;base64,AAAA'', Inl (Error ''boom''),
                       Inr ''data:image/png;base64,BBBB'']"
  let ?parsed = "\<lparr>base64 = Some ''AAAA'', mimeType = ''image/png''\<rparr>"
  have en: "\<not> isGenerationDisabled ?st" by code_simp
  have n: "numberOfImages ?st = 3" by simp
  have r0: "?svc 0 (generateRequest ?st) = Inr ''data:image/png;base64,AAAA''"
    by (simp add: scriptedService_def)
  have r1: "?svc 1 (generateRequest ?st) = Inl (Error ''boom'')"
    by (simp add: scriptedService_def)
  have p: "parseDataUrl ''data:image/png;base64,AAAA'' = Inr ?parsed" by code_simp
  have i: "numberToString 1700000000000 = ''1700000000000''"
    by (simp add: numberToString_def natToString.simps digitChar_def)
  have "handleGenerateClick ?svc sampleClock ?st =
          ?st\<lparr>generatedImages := [''data:image/png;base64,AAAA''],
               history := take MAX_HISTORY_ITEMS
                 (\<lparr>item_id = ''gen-'' @ numberToString (fst (sampleClock 0)),
                   item_image = ?parsed,
                   prompt = generatedPrompt ?st, createdAt = snd (sampleClock 0)\<rparr> # history ?st),
               genError := Some ''boom'', genLoading := False\<rparr>"
    using generate_second_call_fails [of ?st ?svc "''data:image/png;base64,AAAA''" ?parsed "''boom''" sampleClock]
      en n r0 p r1 by blast
  then show ?thesis
    using en n p by (simp add: i initialState_def MAX_HISTORY_ITEMS_def sampleClock_def)
qed

text \<open>
  Claim C9: when a call of the service in the loop returns a string that does not parse as a
  data URL, the image is still appended to the result list, the history add is skipped and the
  history is unchanged, and the loop goes on without an error.
\<close>

theorem unparseable_result_skips_history:
  assumes "i < n" and "svc i req = Inr img" and "parseDataUrl img = Inl err"
  shows "generateLoop svc clk req n i imgs st =
           generateLoop svc clk req n (Suc i) (imgs @ [img])
             (st\<lparr>generatedImages := imgs @ [img]\<rparr>) \<and>
         handleAddToHistory img (req_prompt req) Gen (fst (clk i)) (snd (clk i)) (history st)
           = history st"
proof -
  have h: "handleAddToHistory img (req_prompt req) Gen (fst (clk i)) (snd (clk i)) (history st)
        = history st"
    using assms(3) by (simp add: handleAddToHistory_def newHistoryItem_def)
  then show ?thesis
    using generateLoop_resolved [of i n svc req img clk imgs st] assms(1,2) by simp
qed

text \<open>A whole run with one image requested and a service that returns such a string: the
  image is shown, no error is set, and the history is still empty.\<close>

theorem unparseable_result_skips_history_witness:
  "parseDataUrl ''garbage'' = Inl (Error ''Invalid data URL'') \<and>
   handleGenerateClick (scriptedService [Inr ''garbage'']) sampleClock
     (initialState\<lparr>sceneDescription := ''a castle''\<rparr>)
   = initialState\<lparr>sceneDescription := ''a castle'', generatedImages := [''garbage'']\<rparr>"
proof -
  let ?svc = "scriptedService [Inr ''garbage'']"
  let ?st = "initialState\<lparr>sceneDescription := ''a castle''\<rparr>"
  let ?st1 = "?st\<lparr>genLoading := True, genError := None, generatedImages := []\<rparr>"
  have p: "parseDataUrl ''garbage'' = Inl (Error ''Invalid data URL'')" by code_simp
  have r: "?svc 0 (generateRequest ?st) = Inr ''garbage''" by (simp add: scriptedService_def)
  have "generateLoop ?svc sampleClock (generateRequest ?st) 1 0 [] ?st1
        = generateLoop ?svc sampleClock (generateRequest ?st) 1 (Suc 0) ([] @ [''garbage''])
            (?st1\<lparr>generatedImages := [] @ [''garbage'']\<rparr>)"
    using unparseable_result_skips_history
        [of 0 1 ?svc "generateRequest ?st" "''garbage''" "Error ''Invalid data URL''"
          sampleClock "[]" ?st1] r p by simp
  also have "\<dots> = (None, ?st1\<lparr>generatedImages := [] @ [''garbage'']\<rparr>)"
    by (rule generateLoop_finished) simp
  finally have L: "generateLoop ?svc sampleClock (generateRequest ?st) 1 0 [] ?st1
        = (None, ?st1\<lparr>generatedImages := [] @ [''garbage'']\<rparr>)" .
  have en: "\<not> isGenerationDisabled ?st" by code_simp
  have n: "numberOfImages ?st = 1" by (simp add: initialState_def)
  have "handleGenerateClick ?svc sampleClock ?st
        = ?st1\<lparr>generatedImages := [] @ [''garbage''], genLoading := False\<rparr>"
    by (simp only: handleGenerateClick_def en if_False Let_def n L prod.case option.case)
  then show ?thesis using p by (simp add: initialState_def)
qed

section \<open>Properties of the bulk add\<close>

lemma promiseAll_rejects:
  "Inl err \<in> set ps \<Longrightarrow> \<exists>e. promiseAll ps = Inl e"
  by (induction ps) (auto split: sum.splits)

lemma promiseAll_map_Inr: "promiseAll (map Inr vs) = Inr vs"
  by (induction vs) simp_all

lemma promiseAll_resolved: "promiseAll ps = Inr vs \<Longrightarrow> ps = map Inr vs"
proof (induction ps arbitrary: vs)
  case Nil
  then show ?case by simp
next
  case (Cons p ps)
  from Cons.prems obtain v ws where p: "p = Inr v" and ws: "promiseAll ps = Inr ws"
    and vs: "vs = v # ws"
    by (auto split: sum.splits)
  from Cons.IH [OF ws] p vs show ?case by simp
qed

lemma promiseAll_resolves:
  "promiseAll ps = Inr vs \<longleftrightarrow> ps = map Inr vs"
  using promiseAll_resolved promiseAll_map_Inr by blast

text \<open>
  Claim C5: when the decoding of any one file of a batch fails, the list of elements is left
  entirely unchanged and exactly one error is reported; the list is changed only once all
  decodings are joined.

  A file takes part in the batch when its type starts with \<open>image/\<close>. When the promise of
  one such file rejects, the only change to the state is the one error message.
\<close>

theorem bulk_add_all_or_nothing:
  assumes "file \<in> set files" and "isImageFile file" and "filePromise file = Inl err"
  shows "handleAdditionalElementsFilesAdd files now st =
           st\<lparr>genError := Some ''One or more images could not be processed. Please try again.''\<rparr> \<and>
         additionalElements (handleAdditionalElementsFilesAdd files now st) = additionalElements st"
proof -
  have "Inl err \<in> set (map filePromise (filter isImageFile files))"
    using assms by force
  from promiseAll_rejects [OF this] obtain e
    where "promiseAll (map filePromise (filter isImageFile files)) = Inl e" ..
  then show ?thesis by (simp add: handleAdditionalElementsFilesAdd_def)
qed

theorem bulk_add_all_or_nothing_witness:
  "brokenFile \<in> set [redCarFile, brokenFile, oldMapFile] \<and> isImageFile brokenFile \<and>
   filePromise brokenFile = Inl (Error ''Invalid data URL'') \<and>
   handleAdditionalElementsFilesAdd [redCarFile, brokenFile, oldMapFile] tickingNow initialState =
     initialState\<lparr>genError :=
       Some ''One or more images could not be processed. Please try again.''\<rparr>"
proof -
  have m: "brokenFile \<in> set [redCarFile, brokenFile, oldMapFile]" by simp
  have i: "isImageFile brokenFile" by (simp add: isImageFile_def brokenFile_def)
  have f: "filePromise brokenFile = Inl (Error ''Invalid data URL'')" by code_simp
  from bulk_add_all_or_nothing [OF m i f] m i f show ?thesis by simp
qed

lemma newCharacters_nth:
  "newCharacters now datas =
     map (\<lambda>i. \<lparr>char_id = now i + int i, name = fst (datas ! i), char_image = Some (snd (datas ! i))\<rparr>)
       [0..<length datas]"
proof (rule nth_equalityI)
  show "length (newCharacters now datas) =
        length (map (\<lambda>i. \<lparr>char_id = now i + int i, name = fst (datas ! i),
                           char_image = Some (snd (datas ! i))\<rparr>) [0..<length datas])"
    by (simp add: newCharacters_def)
next
  fix i assume "i < length (newCharacters now datas)"
  then have i: "i < length datas" by (simp add: newCharacters_def)
  then have "enumerate 0 datas ! i = (i, datas ! i)" by (simp add: nth_enumerate_eq)
  then show "newCharacters now datas ! i =
        map (\<lambda>i. \<lparr>char_id = now i + int i, name = fst (datas ! i),
                   char_image = Some (snd (datas ! i))\<rparr>) [0..<length datas] ! i"
    using i by (simp add: newCharacters_def)
qed

lemma filePromise_name:
  "filePromise file = Inr d \<Longrightarrow> fst d = getNameFromFilename (file_name file)"
  by (auto simp: filePromise_def split: option.splits sum.splits)

lemma increasing_ids_distinct:
  assumes "\<forall>i j. i \<le> j \<and> j < n \<longrightarrow> now i \<le> now j"
  shows "distinct (map (\<lambda>i. now i + int i) [0..<n])"
proof -
  have "inj_on (\<lambda>i. now i + int i) (set [0..<n])"
  proof (rule inj_onI)
    fix i j assume i: "i \<in> set [0..<n]" and j: "j \<in> set [0..<n]"
      and e: "now i + int i = now j + int j"
    show "i = j"
    proof (rule ccontr)
      assume "i \<noteq> j"
      then consider "i < j" | "j < i" by linarith
      then show False
      proof cases
        case 1
        then have "now i \<le> now j" using assms j by simp
        with 1 e show False by linarith
      next
        case 2
        then have "now j \<le> now i" using assms i by simp
        with 2 e show False by linarith
      qed
    qed
  qed
  then show ?thesis by (simp add: distinct_map)
qed

text \<open>
  Claim C10: in a batch that succeeds, the \<open>i\<close>-th appended element gets the id "one time
  stamp of the batch plus \<open>i\<close>", so that the ids of a batch are pairwise distinct by
  construction, and the elements are appended in the order of the input files.

  The order holds. The ids are not built from one time stamp: \<^verbatim>\<open>Date.now()\<close> is read again
  for every element. When the clock advances between two elements, the ids are not "stamp plus
  index"; when it is set back by a millisecond, two ids of the batch are equal.
\<close>

theorem bulk_add_ids_counterexample:
  "promiseAll (map filePromise (filter isImageFile [redCarFile, oldMapFile])) =
     Inr [(''red car'', \<lparr>base64 = Some ''AAAA'', mimeType = ''image/png''\<rparr>),
          (''old map.v2'', \<lparr>base64 = Some ''BBBB'', mimeType = ''image/jpeg''\<rparr>)] \<and>
   map char_id
     (additionalElements
        (handleAdditionalElementsFilesAdd [redCarFile, oldMapFile] tickingNow initialState))
     = [1700000000000, 1700000000002] \<and>
   map char_id
     (additionalElements
        (handleAdditionalElementsFilesAdd [redCarFile, oldMapFile] steppedBackNow initialState))
     = [1700000000000, 1700000000000]"
  by code_simp

text \<open>
  Claim C10, amended: in a batch that succeeds, the new elements are appended after the
  existing ones in the order of the image-typed input files, each named after its file; the
  \<open>i\<close>-th new element gets as id the clock reading taken for it plus \<open>i\<close>. When all
  readings of the batch are the same time stamp \<open>t\<close>, the ids are \<open>t + i\<close>; whenever the
  readings do not decrease within the batch, the ids are pairwise distinct.
\<close>

theorem bulk_add_ids_and_order:
  assumes ok: "promiseAll (map filePromise (filter isImageFile files)) = Inr datas"
  shows "additionalElements (handleAdditionalElementsFilesAdd files now st) =
           additionalElements st @ newCharacters now datas \<and>
         map char_id (newCharacters now datas) =
           map (\<lambda>i. now i + int i) [0..<length (filter isImageFile files)] \<and>
         map name (newCharacters now datas) =
           map (\<lambda>f. getNameFromFilename (file_name f)) (filter isImageFile files) \<and>
         ((\<forall>i < length datas. now i = t) \<longrightarrow>
            map char_id (newCharacters now datas) = map (\<lambda>i. t + int i) [0..<length datas]) \<and>
         ((\<forall>i j. i \<le> j \<and> j < length datas \<longrightarrow> now i \<le> now j) \<longrightarrow>
            distinct (map char_id (newCharacters now datas)))"
proof -
  from ok have m: "map filePromise (filter isImageFile files) = map Inr datas"
    by (simp add: promiseAll_resolves)
  then have len: "length (filter isImageFile files) = length datas"
    by (metis length_map)
  have ids: "map char_id (newCharacters now datas) = map (\<lambda>i. now i + int i) [0..<length datas]"
    by (simp add: newCharacters_nth comp_def)
  have names: "map name (newCharacters now datas) =
           map (\<lambda>f. getNameFromFilename (file_name f)) (filter isImageFile files)"
  proof (rule nth_equalityI)
    show "length (map name (newCharacters now datas)) =
          length (map (\<lambda>f. getNameFromFilename (file_name f)) (filter isImageFile files))"
      by (simp add: newCharacters_nth len)
  next
    fix i assume "i < length (map name (newCharacters now datas))"
    then have i: "i < length datas" by (simp add: newCharacters_nth)
    have "filePromise (filter isImageFile files ! i) = Inr (datas ! i)"
      using m i len by (metis nth_map)
    from filePromise_name [OF this] show "map name (newCharacters now datas) ! i =
          map (\<lambda>f. getNameFromFilename (file_name f)) (filter isImageFile files) ! i"
      using i len by (simp add: newCharacters_nth)
  qed
  have d: "(\<forall>i j. i \<le> j \<and> j < length datas \<longrightarrow> now i \<le> now j) \<longrightarrow>
            distinct (map char_id (newCharacters now datas))"
    unfolding ids using increasing_ids_distinct [of "length datas" now] by blast
  have single: "(\<forall>i < length datas. now i = t) \<longrightarrow>
            map char_id (newCharacters now datas) = map (\<lambda>i. t + int i) [0..<length datas]"
    unfolding ids by simp
  have app: "additionalElements (handleAdditionalElementsFilesAdd files now st) =
           additionalElements st @ newCharacters now datas"
    by (simp add: handleAdditionalElementsFilesAdd_def ok)
  have ids': "map char_id (newCharacters now datas) =
           map (\<lambda>i. now i + int i) [0..<length (filter isImageFile files)]"
    using ids len by simp
  from app ids' names single d show ?thesis by blast
qed

theorem bulk_add_ids_and_order_witness:
  "promiseAll (map filePromise (filter isImageFile [redCarFile, oldMapFile])) =
     Inr [(''red car'', \<lparr>base64 = Some ''AAAA'', mimeType = ''image/png''\<rparr>),
          (''old map.v2'', \<lparr>base64 = Some ''BBBB'', mimeType = ''image/jpeg''\<rparr>)] \<and>
   additionalElements
     (handleAdditionalElementsFilesAdd [redCarFile, oldMapFile] tickingNow initialState) =
     [\<lparr>char_id = 1700000000000, name = ''red car'',
       char_image = Some \<lparr>base64 = Some ''AAAA'', mimeType = ''image/png''\<rparr>\<rparr>,
      \<lparr>char_id = 1700000000002, name = ''old map.v2'',
       char_image = Some \<lparr>base64 = Some ''BBBB'', mimeType = ''image/jpeg''\<rparr>\<rparr>] \<and>
   distinct [1700000000000, 1700000000002 :: int]"
proof -
  let ?datas = "[(''red car'', \<lparr>base64 = Some ''AAAA'', mimeType = ''image/png''\<rparr>),
          (''old map.v2'', \<lparr>base64 = Some ''BBBB'', mimeType = ''image/jpeg''\<rparr>)]"
  have ok: "promiseAll (map filePromise (filter isImageFile [redCarFile, oldMapFile])) = Inr ?datas"
    by code_simp
  have mono: "\<forall>i j. i \<le> j \<and> j < length ?datas \<longrightarrow> tickingNow i \<le> tickingNow j"
    by (simp add: tickingNow_def)
  have new: "newCharacters tickingNow ?datas =
     [\<lparr>char_id = 1700000000000, name = ''red car'',
       char_image = Some \<lparr>base64 = Some ''AAAA'', mimeType = ''image/png''\<rparr>\<rparr>,
      \<lparr>char_id = 1700000000002, name = ''old map.v2'',
       char_image = Some \<lparr>base64 = Some ''BBBB'', mimeType = ''image/jpeg''\<rparr>\<rparr>]"
    by code_simp
  from bulk_add_ids_and_order [OF ok, of tickingNow initialState] mono
  have "additionalElements
          (handleAdditionalElementsFilesAdd [redCarFile, oldMapFile] tickingNow initialState) =
          additionalElements initialState @ newCharacters tickingNow ?datas"
    and "distinct (map char_id (newCharacters tickingNow ?datas))"
    by blast+
  then show ?thesis using ok mono by (simp add: new initialState_def)
qed

section \<open>Properties of the named-list editor state\<close>

lemma nameFromUpload_cleared: "nameFromUpload None fileName = None"
  by (simp add: nameFromUpload_def)

lemma edit_clear_resets:
  "map name (editAddChars (handleEditCharImageUpload ident None fileName st)) =
     map (\<lambda>c. if char_id c = ident then positionalName ''Character'' ident (editAddChars st)
               else name c) (editAddChars st) \<and>
   map name (editAddObjs (handleEditObjImageUpload ident None fileName st)) =
     map (\<lambda>c. if char_id c = ident then positionalName ''Object'' ident (editAddObjs st)
               else name c) (editAddObjs st)"
  by (simp add: handleEditCharImageUpload_def handleEditObjImageUpload_def
      nameFromUpload_cleared Let_def comp_def if_distrib [of name] cong: if_cong)

text \<open>
  Claim C8: an image upload that clears the image of an element leaves the name of the element
  untouched, in every list.

  As stated this fails. In the lists of the Generate tab an empty name (the name computed from
  a file called ".png") is replaced by the positional default; in the lists of the Edit tab the
  name is replaced by the positional default on every clearing (\<open>edit_clear_resets\<close>).
\<close>

theorem clearing_image_counterexample:
  "map name (characters
     (handleCharacterImageUpload 1 (Some \<lparr>base64 = Some ''AAAA'', mimeType = ''image/png''\<rparr>)
        (Some ''.png'') initialState)) = [[]] \<and>
   map name (characters
     (handleCharacterImageUpload 1 None None
        (handleCharacterImageUpload 1 (Some \<lparr>base64 = Some ''AAAA'', mimeType = ''image/png''\<rparr>)
           (Some ''.png'') initialState))) = [''Character 1''] \<and>
   map name (editAddChars
     (handleEditCharImageUpload 7 None None
        (initialState\<lparr>editAddChars :=
           [\<lparr>char_id = 7, name = ''red car'',
             char_image = Some \<lparr>base64 = Some ''AAAA'', mimeType = ''image/png''\<rparr>\<rparr>]\<rparr>)))
     = [''Character 1'']"
  by code_simp

text \<open>
  Claim C8, amended: in the character list and the object list of the Generate tab, an image
  upload that clears the image changes no name that is not empty; an element with the given id
  and an empty name gets the positional default name. The names of all other elements are left
  as they are.
\<close>

theorem clearing_image_keeps_name:
  "map name (characters (handleCharacterImageUpload ident None fileName st)) =
     map (\<lambda>c. if char_id c = ident \<and> name c = []
               then positionalName ''Character'' ident (characters st) else name c)
       (characters st) \<and>
   map name (additionalElements (handleElementImageUpload ident None fileName st)) =
     map (\<lambda>c. if char_id c = ident \<and> name c = []
               then positionalName ''Object'' ident (additionalElements st) else name c)
       (additionalElements st) \<and>
   ((\<forall>c \<in> set (characters st). char_id c = ident \<longrightarrow> name c \<noteq> []) \<longrightarrow>
      map name (characters (handleCharacterImageUpload ident None fileName st)) =
      map name (characters st)) \<and>
   ((\<forall>c \<in> set (additionalElements st). char_id c = ident \<longrightarrow> name c \<noteq> []) \<longrightarrow>
      map name (additionalElements (handleElementImageUpload ident None fileName st)) =
      map name (additionalElements st))"
proof -
  have a: "map name (characters (handleCharacterImageUpload ident None fileName st)) =
     map (\<lambda>c. if char_id c = ident \<and> name c = []
               then positionalName ''Character'' ident (characters st) else name c)
       (characters st)"
    by (simp add: handleCharacterImageUpload_def nameFromUpload_cleared Let_def comp_def)
  have b: "map name (additionalElements (handleElementImageUpload ident None fileName st)) =
     map (\<lambda>c. if char_id c = ident \<and> name c = []
               then positionalName ''Object'' ident (additionalElements st) else name c)
       (additionalElements st)"
    by (simp add: handleElementImageUpload_def nameFromUpload_cleared Let_def comp_def)
  have c: "(\<forall>c \<in> set (characters st). char_id c = ident \<longrightarrow> name c \<noteq> []) \<longrightarrow>
      map name (characters (handleCharacterImageUpload ident None fileName st)) =
      map name (characters st)"
    unfolding a by (auto intro: map_cong)
  have d: "(\<forall>c \<in> set (additionalElements st). char_id c = ident \<longrightarrow> name c \<noteq> []) \<longrightarrow>
      map name (additionalElements (handleElementImageUpload ident None fileName st)) =
      map name (additionalElements st)"
    unfolding b by (auto intro: map_cong)
  from a b c d show ?thesis by blast
qed

theorem clearing_image_keeps_name_witness:
  "map name (characters (handleCharacterImageUpload 1 None None
     (initialState\<lparr>characters :=
        [\<lparr>char_id = 1, name = ''Hero'',
          char_image = Some \<lparr>base64 = Some ''AAAA'', mimeType = ''image/png''\<rparr>\<rparr>],
      additionalElements :=
        [\<lparr>char_id = 1, name = ''red car'',
          char_image = Some \<lparr>base64 = Some ''BBBB'', mimeType = ''image/png''\<rparr>\<rparr>]\<rparr>)))
     = [''Hero''] \<and>
   map name (additionalElements (handleElementImageUpload 1 None None
     (initialState\<lparr>characters :=
        [\<lparr>char_id = 1, name = ''Hero'',
          char_image = Some \<lparr>base64 = Some ''AAAA'', mimeType = ''image/png''\<rparr>\<rparr>],
      additionalElements :=
        [\<lparr>char_id = 1, name = ''red car'',
          char_image = Some \<lparr>base64 = Some ''BBBB'', mimeType = ''image/png''\<rparr>\<rparr>]\<rparr>)))
     = [''red car'']"
  using clearing_image_keeps_name [of 1 None
     "initialState\<lparr>characters :=
        [\<lparr>char_id = 1, name = ''Hero'',
          char_image = Some \<lparr>base64 = Some ''AAAA'', mimeType = ''image/png''\<rparr>\<rparr>],
      additionalElements :=
        [\<lparr>char_id = 1, name = ''red car'',
          char_image = Some \<lparr>base64 = Some ''BBBB'', mimeType = ''image/png''\<rparr>\<rparr>]\<rparr>"]
  by simp

end
